theory Spec2Isabelle
  imports Complex_Main "HOL-Library.Word"
begin

section \<open>JavaScript values, thrown values and outbound messages\<close>

text \<open>
  The worker of \<^verbatim>\<open>streamingWorker.js\<close> is embedded as pure functions over an explicit
  worker state (the three module-level variables), an explicit record of what the
  platform and the engine answer (the Cache API, \<^verbatim>\<open>fetch\<close>, the WASM module), and an
  explicit trace of the effects the code performs (\<^verbatim>\<open>self.postMessage\<close>, the console,
  cache and network calls, engine calls).

  A handler is followed from its message to its end: a message that the runtime
  would start while an earlier handler waits at an \<^verbatim>\<open>await\<close> is not interleaved with
  it. The three downloads of one model load do interleave, in the order the world gives.

  Message payloads arrive by structured clone, so they hold no functions: a payload is
  undefined, null, a boolean, a number, a string, a binary buffer or a plain object.
  Numbers are the integers and NaN (fractions are not needed by any branch of the code).
\<close>

type_synonym bytes = "8 word list"

type_synonym time = rat

datatype jsval =
    JUndefined
  | JNull
  | JBool bool
  | JNum int
  | JNaN
  | JStr string
  | JBuffer bytes
  | JObj "(string \<times> jsval) list"

text \<open>
  What a \<^verbatim>\<open>catch\<close> clause can receive: an Error object (its name and message), a
  thrown primitive (by its string rendering), or a thrown null or undefined.
\<close>

datatype exn =
    JsError string string
  | ThrownStr string
  | ThrownNull
  | ThrownUndefined

text \<open>ToBoolean.\<close>

fun truthy :: "jsval \<Rightarrow> bool" where
  "truthy JUndefined = False"
| "truthy JNull = False"
| "truthy (JBool b) = b"
| "truthy (JNum n) = (n \<noteq> 0)"
| "truthy JNaN = False"
| "truthy (JStr s) = (s \<noteq> [])"
| "truthy (JBuffer b) = True"
| "truthy (JObj ps) = True"

definition nullish :: "jsval \<Rightarrow> bool" where
  "nullish v = (v = JUndefined \<or> v = JNull)"

text \<open>
  Reading a property \<^verbatim>\<open>v.k\<close> of a value that is not null or undefined, for the property
  names the worker reads (\<^verbatim>\<open>type\<close>, \<^verbatim>\<open>data\<close>, \<^verbatim>\<open>prompt\<close>, \<^verbatim>\<open>image\<close>, \<^verbatim>\<open>base_url\<close>,
  \<^verbatim>\<open>model\<close>, \<^verbatim>\<open>tokenizer\<close>, \<^verbatim>\<open>config\<close>, \<^verbatim>\<open>quantized\<close>): none of them is defined on
  the prototype of a primitive or a buffer, so only a plain object can answer with
  anything but undefined. Every caller below tests \<open>nullish\<close> first.
\<close>

fun prop_of :: "jsval \<Rightarrow> string \<Rightarrow> jsval" where
  "prop_of (JObj ps) k = (case map_of ps k of Some v \<Rightarrow> v | None \<Rightarrow> JUndefined)"
| "prop_of v k = JUndefined"

definition digit_char :: "nat \<Rightarrow> char" where
  "digit_char n = ''0123456789'' ! (n mod 10)"

fun show_nat :: "nat \<Rightarrow> string" where
  "show_nat n = (if n < 10 then [digit_char n] else show_nat (n div 10) @ [digit_char (n mod 10)])"

declare show_nat.simps [simp del]

definition show_int :: "int \<Rightarrow> string" where
  "show_int i = (if i < 0 then CHR ''-'' # show_nat (nat (- i)) else show_nat (nat i))"

text \<open>
  ToString as a template literal applies it (\<^verbatim>\<open>${v}\<close> between backquotes). A plain object goes through
  OrdinaryToPrimitive: an own \<^verbatim>\<open>toString\<close> property shadows the inherited method and,
  holding no function, is skipped; the inherited \<^verbatim>\<open>valueOf\<close> returns the object itself,
  so the conversion throws a TypeError. Without such a property the inherited
  \<^verbatim>\<open>toString\<close> answers.
\<close>

fun tpl :: "jsval \<Rightarrow> exn + string" where
  "tpl JUndefined = Inr ''undefined''"
| "tpl JNull = Inr ''null''"
| "tpl (JBool b) = Inr (if b then ''true'' else ''false'')"
| "tpl (JNum n) = Inr (show_int n)"
| "tpl JNaN = Inr ''NaN''"
| "tpl (JStr s) = Inr s"
| "tpl (JBuffer b) = Inr ''[object ArrayBuffer]''"
| "tpl (JObj ps) =
     (if map_of ps ''toString'' \<noteq> None
      then Inl (JsError ''TypeError'' ''Cannot convert object to primitive value'')
      else Inr ''[object Object]'')"

text \<open>
  \<^verbatim>\<open>error.toString()\<close> in a catch clause: Error.prototype.toString joins name and
  message; on null or undefined the property read itself throws.
\<close>

fun exn_toString :: "exn \<Rightarrow> exn + string" where
  "exn_toString (JsError name message) =
     Inr (if message = [] then name else if name = [] then message else name @ '': '' @ message)"
| "exn_toString (ThrownStr s) = Inr s"
| "exn_toString ThrownNull =
     Inl (JsError ''TypeError'' ''Cannot read properties of null (reading 'toString')'')"
| "exn_toString ThrownUndefined =
     Inl (JsError ''TypeError'' ''Cannot read properties of undefined (reading 'toString')'')"

text \<open>\<^verbatim>\<open>s.split(sep)\<close> for a one-character separator.\<close>

fun split_on :: "char \<Rightarrow> string \<Rightarrow> string list" where
  "split_on sep [] = [[]]"
| "split_on sep (c # cs) =
     (if c = sep then [] # split_on sep cs
      else (case split_on sep cs of
              [] \<Rightarrow> [[c]]
            | w # ws \<Rightarrow> (c # w) # ws))"

text \<open>
  The statistics of a streamed token: the running token count and the two readings of
  the clock since the start. The code sends \<^verbatim>\<open>tokensSec\<close> as
  \<^verbatim>\<open>(tokenCount / elapsed * 1000).toFixed(2)\<close> and \<^verbatim>\<open>totalTime\<close> as the second reading;
  the message keeps the operands, not the rendered float.
\<close>

record token_stats =
  tokenCount :: nat
  tokensSec_elapsed :: time
  totalTime :: time

text \<open>
  The outbound messages, by their \<^verbatim>\<open>type\<close> tag. A \<^verbatim>\<open>loading_progress\<close> message with a
  percentage keeps the description, the percentage and the byte count from which the
  code renders its text; a \<^verbatim>\<open>cache_status\<close> listing keeps file names and byte sizes.
\<close>

datatype msg =
    LoadingProgress string
  | LoadingProgressPct string int nat
  | WasmInitialized bool
  | ModelLoaded
  | Token string "token_stats option"
  | StreamComplete
  | ErrorMsg string
  | CacheStatus string
  | CacheStatusFiles "(string \<times> nat) list"

datatype level = LogL | WarnL | ErrorL

datatype phi_model = PhiModel nat

datatype phi_agent = PhiAgentWrapper nat

datatype effect =
    Post msg
  | Console level string
  | CachesOpen string
  | CacheMatch string
  | CacheDelete string
  | CachePut string bytes
  | CacheKeys
  | Fetch string
  | EngineInit
  | EngineConstruct bytes bytes bytes jsval
  | EngineWrap phi_model
  | EngineStream phi_agent string
  | SetTimeout nat

section \<open>downloadFile\<close>

datatype read_result = Chunk bytes | Done | ReadFail exn

record cached_response =
  c_ok :: bool
  c_arrayBuffer :: "exn + bytes"

record response =
  r_ok :: bool
  r_status :: nat
  r_statusText :: string
  r_content_length :: "string option"
  r_has_body :: bool
  r_reads :: "nat \<Rightarrow> read_result"

text \<open>
  What the platform answers during one call of \<^verbatim>\<open>downloadFile\<close>: \<^verbatim>\<open>caches.open\<close>,
  \<^verbatim>\<open>cache.match\<close>, \<^verbatim>\<open>cache.delete\<close>, \<^verbatim>\<open>fetch\<close> and \<^verbatim>\<open>cache.put\<close>, each resolving
  or rejecting. The body of a response is the sequence of answers of
  \<^verbatim>\<open>reader.read()\<close>, which need not ever report \<^verbatim>\<open>done\<close>.
\<close>

record download_world =
  open_res :: "exn + unit"
  match_res :: "exn + cached_response option"
  delete_res :: "exn + bool"
  fetch_res :: "exn + response"
  put_res :: "exn + unit"

definition cacheName :: string where
  "cacheName = ''phi-model-cache''"

definition js_ws :: "char \<Rightarrow> bool" where
  "js_ws c = (c \<in> set [CHR '' '', CHR 0x09, CHR 0x0A, CHR 0x0B, CHR 0x0C, CHR 0x0D, CHR 0xA0])"

definition is_digit :: "char \<Rightarrow> bool" where
  "is_digit c = (c \<in> set ''0123456789'')"

definition digit_of :: "char \<Rightarrow> nat" where
  "digit_of c = length (takeWhile (\<lambda>d. d \<noteq> c) ''0123456789'')"

definition decimal :: "string \<Rightarrow> nat" where
  "decimal ds = foldl (\<lambda>acc c. 10 * acc + digit_of c) 0 ds"

text \<open>
  \<^verbatim>\<open>parseInt(s, 10)\<close>: leading white space, an optional sign, the longest run of
  digits; NaN (here \<open>None\<close>) when there is no digit.
\<close>

definition parseInt10 :: "string \<Rightarrow> int option" where
  "parseInt10 s =
     (let s1 = dropWhile js_ws s;
          neg = (s1 \<noteq> [] \<and> hd s1 = CHR ''-'');
          s2 = (if s1 \<noteq> [] \<and> (hd s1 = CHR ''-'' \<or> hd s1 = CHR ''+'') then tl s1 else s1);
          ds = takeWhile is_digit s2
      in if ds = [] then None
         else Some (if neg then - int (decimal ds) else int (decimal ds)))"

text \<open>\<^verbatim>\<open>headers.get\<close> answers null for a missing header, which \<^verbatim>\<open>parseInt\<close> reads as the
  string \<^verbatim>\<open>null\<close>.\<close>

definition parse_content_length :: "string option \<Rightarrow> int option" where
  "parse_content_length h = parseInt10 (case h of None \<Rightarrow> ''null'' | Some s \<Rightarrow> s)"

text \<open>\<^verbatim>\<open>Math.round\<close>: to the nearest integer, a half upwards. The quotient is taken in
  exact arithmetic.\<close>

definition js_round :: "rat \<Rightarrow> int" where
  "js_round x = \<lfloor>x + 1 / 2\<rfloor>"

definition progress_effects :: "string \<Rightarrow> int option \<Rightarrow> nat \<Rightarrow> effect list" where
  "progress_effects description total_len loaded =
     (case total_len of
        None \<Rightarrow> []
      | Some t \<Rightarrow>
          if t \<noteq> 0 \<and> loaded > 0
          then [Post (LoadingProgressPct description
                        (js_round ((of_nat loaded / of_int t) * 100)) loaded)]
          else [])"

text \<open>The \<^verbatim>\<open>while (true)\<close> loop over \<^verbatim>\<open>reader.read()\<close>; \<open>None\<close> when it never ends.\<close>

partial_function (option) read_loop ::
  "(nat \<Rightarrow> read_result) \<Rightarrow> string \<Rightarrow> int option \<Rightarrow> nat \<Rightarrow> bytes list \<Rightarrow> nat \<Rightarrow> effect list
     \<Rightarrow> ((exn + bytes list) \<times> effect list) option" where
  "read_loop reads description total_len i chunks loaded eff =
     (case reads i of
        Done \<Rightarrow> Some (Inr chunks, eff)
      | ReadFail e \<Rightarrow> Some (Inl e, eff)
      | Chunk v \<Rightarrow>
          read_loop reads description total_len (Suc i) (chunks @ [v]) (loaded + length v)
            (eff @ progress_effects description total_len (loaded + length v)))"

declare read_loop.simps [code]

text \<open>\<^verbatim>\<open>result.set(chunk, offset)\<close> on a Uint8Array.\<close>

definition u8_set :: "bytes \<Rightarrow> bytes \<Rightarrow> nat \<Rightarrow> exn + bytes" where
  "u8_set result chunk offset =
     (if offset + length chunk > length result
      then Inl (JsError ''RangeError'' ''offset is out of bounds'')
      else Inr (take offset result @ chunk @ drop (offset + length chunk) result))"

fun fill :: "bytes list \<Rightarrow> bytes \<Rightarrow> nat \<Rightarrow> exn + bytes" where
  "fill [] result offset = Inr result"
| "fill (chunk # rest) result offset =
     (case u8_set result chunk offset of
        Inl e \<Rightarrow> Inl e
      | Inr result' \<Rightarrow> fill rest result' (offset + length chunk))"

definition concat_chunks :: "bytes list \<Rightarrow> exn + bytes" where
  "concat_chunks chunks =
     (let totalLength = foldl (\<lambda>acc chunk. acc + length chunk) 0 chunks;
          result = replicate totalLength 0
      in fill chunks result 0)"

definition download_catch ::
  "string \<Rightarrow> exn \<Rightarrow> effect list \<Rightarrow> ((exn + bytes) \<times> effect list) option" where
  "download_catch description e eff =
     Some (Inl e, eff @ [Console ErrorL (''Failed to download '' @ description @ '':'')])"

definition store_and_return ::
  "download_world \<Rightarrow> string \<Rightarrow> string \<Rightarrow> bytes list \<Rightarrow> effect list
     \<Rightarrow> ((exn + bytes) \<times> effect list) option" where
  "store_and_return w url description chunks eff =
     (case concat_chunks chunks of
        Inl e \<Rightarrow> download_catch description e eff
      | Inr result \<Rightarrow>
          (let eff1 = eff @
                 [Console LogL (''Downloaded '' @ description @ '': '' @
                                 show_nat (length result) @ '' bytes''),
                  CachePut url result]
           in case put_res w of
                Inr u \<Rightarrow>
                  Some (Inr result,
                        eff1 @ [Console LogL (''Cached '' @ description @ '' successfully'')])
              | Inl cacheError \<Rightarrow>
                  Some (Inr result,
                        eff1 @ [Console WarnL (''Failed to cache '' @ description @ '':'')])))"

definition http_error :: "response \<Rightarrow> string \<Rightarrow> exn" where
  "http_error r url =
     JsError ''Error''
       (''HTTP '' @ show_nat (r_status r) @ '': '' @ r_statusText r @ '' for '' @ url)"

definition fetch_and_read ::
  "download_world \<Rightarrow> string \<Rightarrow> string \<Rightarrow> effect list
     \<Rightarrow> ((exn + bytes) \<times> effect list) option" where
  "fetch_and_read w url description eff =
     (let eff1 = eff @
            [Console LogL (''Downloading '' @ description @ '':''),
             Post (LoadingProgress (''Downloading '' @ description @ ''...'')),
             Fetch url]
      in case fetch_res w of
           Inl e \<Rightarrow> download_catch description e eff1
         | Inr r \<Rightarrow>
             if \<not> r_ok r then download_catch description (http_error r url) eff1
             else if \<not> r_has_body r
             then download_catch description
                    (JsError ''TypeError''
                       ''Cannot read properties of null (reading 'getReader')'') eff1
             else (case read_loop (r_reads r) description
                          (parse_content_length (r_content_length r)) 0 [] 0 eff1 of
                     None \<Rightarrow> None
                   | Some (Inl e, eff2) \<Rightarrow> download_catch description e eff2
                   | Some (Inr chunks, eff2) \<Rightarrow>
                       store_and_return w url description chunks eff2))"

definition downloadFile ::
  "download_world \<Rightarrow> string \<Rightarrow> string \<Rightarrow> ((exn + bytes) \<times> effect list) option" where
  "downloadFile w url description =
     (case open_res w of
        Inl e \<Rightarrow> download_catch description e [CachesOpen cacheName]
      | Inr u \<Rightarrow>
          (case match_res w of
             Inl e \<Rightarrow> download_catch description e [CachesOpen cacheName, CacheMatch url]
           | Inr None \<Rightarrow>
               fetch_and_read w url description [CachesOpen cacheName, CacheMatch url]
           | Inr (Some cachedResponse) \<Rightarrow>
               (let eff = [CachesOpen cacheName, CacheMatch url,
                           Console LogL (''Loading '' @ description @ '' from cache:''),
                           Post (LoadingProgress
                                   (''Loading '' @ description @ '' from cache...''))]
                in if c_ok cachedResponse
                   then (case c_arrayBuffer cachedResponse of
                           Inl e \<Rightarrow> download_catch description e eff
                         | Inr data \<Rightarrow>
                             Some (Inr data,
                                   eff @ [Console LogL
                                            (''Cached '' @ description @ '' size:'')]))
                   else (let eff1 = eff @
                               [Console WarnL
                                  ''Cached response not ok, removing from cache:'',
                                CacheDelete url]
                         in case delete_res w of
                              Inl e \<Rightarrow> download_catch description e eff1
                            | Inr b \<Rightarrow> fetch_and_read w url description eff1))))"

section \<open>The worker state and what the platform and the engine answer\<close>

record worker_state =
  wasmInitialized :: bool
  currentModel :: "phi_model option"
  currentAgent :: "phi_agent option"

text \<open>How an \<^verbatim>\<open>async\<close> function ends: it returns, it rejects, or it waits for ever on a
  promise that never settles.\<close>

datatype 'a completion = Returned 'a | Raised exn | Pending

text \<open>
  One call of \<^verbatim>\<open>get_response_stream\<close>: the tokens the engine hands to the callback
  (each with the two readings of \<^verbatim>\<open>performance.now()\<close> the callback takes), and how
  the call ends.
\<close>

datatype stream_end = Resolved | Rejected exn | ThrewSync exn | NeverSettles

record stream_outcome =
  so_tokens :: "(string \<times> time \<times> time) list"
  so_end :: stream_end

text \<open>
  The answers of everything outside the file during the handling of one message:
  \<^verbatim>\<open>init()\<close>; the three downloads of a model load, in call order, and the order in
  which their steps interleave; the constructor \<^verbatim>\<open>new PhiModel\<close> and
  \<^verbatim>\<open>PhiAgentWrapper.from_phi_model\<close>; the clock at the start of a generation and the
  engine's stream; the Cache API as the two cache commands see it (for a key,
  \<^verbatim>\<open>cache.match\<close> answers nothing or a response whose \<^verbatim>\<open>arrayBuffer()\<close> gives a
  byte length).
\<close>

record world =
  init_res :: "exn + unit"
  dl :: "nat \<Rightarrow> download_world"
  sched :: "nat list"
  construct_res :: "bytes \<Rightarrow> bytes \<Rightarrow> bytes \<Rightarrow> jsval \<Rightarrow> exn + phi_model"
  wrap_res :: "phi_model \<Rightarrow> exn + phi_agent"
  start_time :: time
  stream_res :: "phi_agent \<Rightarrow> string \<Rightarrow> stream_outcome"
  cw_open :: "exn + unit"
  cw_keys :: "exn + string list"
  cw_match :: "string \<Rightarrow> exn + (exn + nat) option"
  cw_delete :: "string \<Rightarrow> exn + bool"

section \<open>initializeWASM\<close>

definition initializeWASM :: "world \<Rightarrow> worker_state \<Rightarrow> worker_state \<times> effect list \<times> bool" where
  "initializeWASM w s =
     (let eff = [Console LogL ''Worker initialization started'', EngineInit]
      in case init_res w of
           Inr u \<Rightarrow>
             (s\<lparr>wasmInitialized := True\<rparr>,
              eff @ [Console LogL ''WASM initialized in worker successfully''], True)
         | Inl e \<Rightarrow>
             (s, eff @ [Console ErrorL ''Failed to initialize WASM in worker:''], False))"

section \<open>loadModel\<close>

text \<open>
  \<^verbatim>\<open>Promise.all\<close> over the three downloads. Each trace is tagged with the index of its
  download and the traces are interleaved as the schedule says (an index takes the next
  step of that download; what is left when the schedule ends follows in call order).
  The runtime cannot separate the steps of one download that lie between two of its
  \<^verbatim>\<open>await\<close>s, so its interleavings are among these schedules. Each call runs up to its
  first \<^verbatim>\<open>await\<close> when it is made, which is why \<open>loadModel\<close> starts every schedule with
  0, 1, 2.
\<close>

fun merge :: "nat list \<Rightarrow> 'a list list \<Rightarrow> (nat \<times> 'a) list" where
  "merge [] trs = concat (map (\<lambda>(k, tr). map (Pair k) tr) (enumerate 0 trs))"
| "merge (k # ks) trs =
     (if k < length trs
      then (case trs ! k of
              [] \<Rightarrow> merge ks trs
            | x # xs \<Rightarrow> (k, x) # merge ks (trs[k := xs]))
      else merge ks trs)"

text \<open>
  \<^verbatim>\<open>Promise.all\<close> rejects as soon as one download has rejected, that is after the last
  step of the first failing download to finish; the steps of the other downloads that
  come later happen after the caller's \<^verbatim>\<open>catch\<close> has run.
\<close>

fun first_rejection ::
  "(nat \<Rightarrow> exn option) \<Rightarrow> (nat \<times> effect) list \<Rightarrow> effect list \<times> exn option \<times> effect list" where
  "first_rejection rej [] = ([], None, [])"
| "first_rejection rej ((k, e) # rest) =
     (if rej k \<noteq> None \<and> k \<notin> set (map fst rest)
      then ([e], rej k, map snd rest)
      else (case first_rejection rej rest of
              (before, r, after) \<Rightarrow> (e # before, r, after)))"

definition rejection_of :: "((exn + bytes) \<times> effect list) list \<Rightarrow> nat \<Rightarrow> exn option" where
  "rejection_of rs k =
     (if k < length rs
      then (case fst (rs ! k) of Inl e \<Rightarrow> Some e | Inr b \<Rightarrow> None)
      else None)"

definition buffer_of :: "(exn + bytes) \<times> effect list \<Rightarrow> bytes" where
  "buffer_of r = (case fst r of Inr b \<Rightarrow> b | Inl e \<Rightarrow> [])"

definition promise_all ::
  "nat list \<Rightarrow> ((exn + bytes) \<times> effect list) list
     \<Rightarrow> effect list \<times> (exn + bytes list) \<times> effect list" where
  "promise_all schedule rs =
     (case first_rejection (rejection_of rs) (merge schedule (map snd rs)) of
        (before, Some e, after) \<Rightarrow> (before, Inl e, after)
      | (before, None, after) \<Rightarrow> (before, Inr (map buffer_of rs), after))"

definition model_url :: "jsval \<Rightarrow> string \<Rightarrow> exn + string" where
  "model_url modelConfig field =
     (case tpl (prop_of modelConfig ''base_url'') of
        Inl e \<Rightarrow> Inl e
      | Inr b \<Rightarrow>
          (case tpl (prop_of modelConfig field) of
             Inl e \<Rightarrow> Inl e
           | Inr p \<Rightarrow> Inr (b @ p)))"

text \<open>The \<^verbatim>\<open>catch\<close> clause of \<^verbatim>\<open>loadModel\<close>; \<open>later\<close> are the steps of downloads still
  running.\<close>

definition load_catch ::
  "worker_state \<Rightarrow> exn \<Rightarrow> effect list \<Rightarrow> effect list
     \<Rightarrow> worker_state \<times> effect list \<times> bool completion" where
  "load_catch s e eff later =
     (case exn_toString e of
        Inr txt \<Rightarrow>
          (s, eff @ [Console ErrorL ''Failed to load model in worker:'', Post (ErrorMsg txt)]
                @ later,
           Returned False)
      | Inl e' \<Rightarrow>
          (s, eff @ [Console ErrorL ''Failed to load model in worker:''] @ later, Raised e'))"

text \<open>Lines 141 to 164: from the three buffers to the two handles.\<close>

definition build_model ::
  "world \<Rightarrow> worker_state \<Rightarrow> jsval \<Rightarrow> bytes list \<Rightarrow> effect list
     \<Rightarrow> worker_state \<times> effect list \<times> bool completion" where
  "build_model w s modelConfig buffers eff =
     (let weightsArray = buffers ! 0;
          tokenizerArray = buffers ! 1;
          configArray = buffers ! 2;
          q = prop_of modelConfig ''quantized'';
          isQuantized = (if truthy q then q else JBool False);
          eff1 = eff @
            [Console LogL ''Initializing Phi model with weights:'',
             Post (LoadingProgress ''Initializing Phi model...''),
             EngineConstruct weightsArray tokenizerArray configArray isQuantized]
      in case construct_res w weightsArray tokenizerArray configArray isQuantized of
           Inl e \<Rightarrow> load_catch s e eff1 []
         | Inr m \<Rightarrow>
             (let s1 = s\<lparr>currentModel := Some m\<rparr>;
                  eff2 = eff1 @
                    [Console LogL ''Creating agent wrapper...'',
                     Post (LoadingProgress ''Creating agent wrapper...''),
                     EngineWrap m]
              in case wrap_res w m of
                   Inl e \<Rightarrow>
                     load_catch s1 e
                       (eff2 @ [Console ErrorL ''Failed to create agent wrapper:'']) []
                 | Inr a \<Rightarrow>
                     (s1\<lparr>currentAgent := Some a\<rparr>,
                      eff2 @ [Console LogL ''Phi agent loaded successfully'', Post ModelLoaded],
                      Returned True)))"

definition loadModel ::
  "world \<Rightarrow> worker_state \<Rightarrow> jsval
     \<Rightarrow> (worker_state \<times> effect list \<times> bool completion) option" where
  "loadModel w s modelConfig =
     (let eff = [Console LogL ''Loading Phi model in worker:'',
                 Post (LoadingProgress ''Starting Phi model load...'')]
      in if nullish modelConfig
         then Some (load_catch s
                      (JsError ''TypeError''
                         ''Cannot read properties of undefined (reading 'base_url')'') eff [])
         else
           (case model_url modelConfig ''model'' of
              Inl e \<Rightarrow> Some (load_catch s e eff [])
            | Inr weightsUrl \<Rightarrow>
           (case model_url modelConfig ''tokenizer'' of
              Inl e \<Rightarrow> Some (load_catch s e eff [])
            | Inr tokenizerUrl \<Rightarrow>
           (case model_url modelConfig ''config'' of
              Inl e \<Rightarrow> Some (load_catch s e eff [])
            | Inr configUrl \<Rightarrow>
           (case downloadFile (dl w 0) weightsUrl ''Phi model weights'' of
              None \<Rightarrow> None
            | Some r0 \<Rightarrow>
           (case downloadFile (dl w 1) tokenizerUrl ''Phi tokenizer'' of
              None \<Rightarrow> None
            | Some r1 \<Rightarrow>
           (case downloadFile (dl w 2) configUrl ''Phi config'' of
              None \<Rightarrow> None
            | Some r2 \<Rightarrow>
           (case promise_all (0 # 1 # 2 # sched w) [r0, r1, r2] of
              (before, Inl e, later) \<Rightarrow> Some (load_catch s e (eff @ before) later)
            | (before, Inr buffers, later) \<Rightarrow>
                Some (build_model w s modelConfig buffers (eff @ before))))))))))"

section \<open>generateResponse\<close>

definition apology :: string where
  "apology =
     ''I'm a text generation model and can't analyze images. Please ask me text-based questions!''"

definition fallback_effects :: "effect list" where
  "fallback_effects =
     concat (map (\<lambda>word. [Post (Token (word @ '' '') None), SetTimeout 50])
               (split_on CHR '' '' apology))"

text \<open>\<^verbatim>\<open>tokenCallback\<close>, once for each token the engine delivers.\<close>

fun token_effects :: "time \<Rightarrow> nat \<Rightarrow> (string \<times> time \<times> time) list \<Rightarrow> effect list" where
  "token_effects startTime n [] = []"
| "token_effects startTime n ((token, now1, now2) # rest) =
     [Console LogL ''JavaScript callback received token:'',
      Post (Token token
              (Some \<lparr>tokenCount = Suc n, tokensSec_elapsed = now1 - startTime,
                     totalTime = now2 - startTime\<rparr>))]
     @ token_effects startTime (Suc n) rest"

definition stream_catch :: "effect list" where
  "stream_catch =
     [Console LogL ''Detailed streaming error:'', Console LogL ''Error type:'',
      Console LogL ''Error message:'', Console LogL ''Error toString:'']"

definition stream_done :: "effect list" where
  "stream_done =
     [Post StreamComplete,
      Console LogL ''Generation fully completed, total tokens/words processed:'']"

text \<open>The \<^verbatim>\<open>catch\<close> clause at the end of \<^verbatim>\<open>generateResponse\<close>.\<close>

definition generate_catch ::
  "worker_state \<Rightarrow> exn \<Rightarrow> effect list \<Rightarrow> worker_state \<times> effect list \<times> unit completion" where
  "generate_catch s e eff =
     (case exn_toString e of
        Inr txt \<Rightarrow>
          (s, eff @ [Console ErrorL ''Generation error in worker:'', Post (ErrorMsg txt)],
           Returned ())
      | Inl e' \<Rightarrow> (s, eff @ [Console ErrorL ''Generation error in worker:''], Raised e'))"

text \<open>Lines 196 to 230: the text path.\<close>

definition stream_text ::
  "world \<Rightarrow> worker_state \<Rightarrow> phi_agent \<Rightarrow> jsval \<Rightarrow> effect list
     \<Rightarrow> worker_state \<times> effect list \<times> unit completion" where
  "stream_text w s agent prompt eff =
     (let eff1 = eff @
            [Console LogL ''Getting real-time streaming response from Phi agent...'',
             Console LogL ''About to call currentAgent.get_response_stream...'']
      in case prompt of
           JStr p \<Rightarrow>
             (let out = stream_res w agent p;
                  eff2 = eff1 @
                    [Console LogL ''Calling get_response_stream with prompt:'',
                     EngineStream agent p]
                    @ token_effects (start_time w) 0 (so_tokens out)
              in case so_end out of
                   Resolved \<Rightarrow>
                     (s, eff2 @
                         [Console LogL ''get_response_stream result:'',
                          Console LogL
                            ''Real-time streaming completed successfully, total tokens:'']
                         @ stream_done,
                      Returned ())
                 | Rejected streamError \<Rightarrow> (s, eff2 @ stream_catch @ stream_done, Returned ())
                 | ThrewSync streamError \<Rightarrow> (s, eff2 @ stream_catch @ stream_done, Returned ())
                 | NeverSettles \<Rightarrow> (s, eff2, Pending))
         | other \<Rightarrow> (s, eff1 @ stream_catch @ stream_done, Returned ()))"

definition image_supplied :: "jsval \<Rightarrow> bool" where
  "image_supplied img = (truthy img \<and> truthy (prop_of img ''data''))"

definition generateResponse ::
  "world \<Rightarrow> worker_state \<Rightarrow> jsval \<Rightarrow> worker_state \<times> effect list \<times> unit completion" where
  "generateResponse w s data =
     (case currentAgent s of
        None \<Rightarrow> (s, [Post (ErrorMsg ''No agent loaded'')], Returned ())
      | Some agent \<Rightarrow>
          if nullish data
          then generate_catch s
                 (JsError ''TypeError''
                    ''Cannot destructure property 'prompt' of 'data' as it is undefined.'') []
          else
            (let prompt = prop_of data ''prompt'';
                 img = prop_of data ''image''
             in case tpl prompt of
                  Inl e \<Rightarrow> generate_catch s e []
                | Inr shown \<Rightarrow>
                    (let eff = [Console LogL (''Starting generation for prompt: '' @ shown)]
                     in if image_supplied img
                        then (s, eff @ fallback_effects @ [Post StreamComplete], Returned ())
                        else stream_text w s agent prompt eff)))"

section \<open>Cache management\<close>

definition file_name :: "string \<Rightarrow> string" where
  "file_name url = last (split_on CHR ''/'' url)"

text \<open>The size of one cached entry (line 251), or the rejection of its promise.\<close>

definition entry_size :: "world \<Rightarrow> string \<Rightarrow> exn + nat" where
  "entry_size w key =
     (case cw_match w key of
        Inl e \<Rightarrow> Inl e
      | Inr None \<Rightarrow> Inr 0
      | Inr (Some body) \<Rightarrow> body)"

definition checkCacheStatus :: "world \<Rightarrow> effect list" where
  "checkCacheStatus w =
     (let failed = [Post (CacheStatus ''Cache check failed'')]
      in case cw_open w of
           Inl e \<Rightarrow> [CachesOpen cacheName] @ failed
         | Inr u \<Rightarrow>
             (case cw_keys w of
                Inl e \<Rightarrow> [CachesOpen cacheName, CacheKeys] @ failed
              | Inr keys \<Rightarrow>
                  if length keys = 0
                  then [CachesOpen cacheName, CacheKeys, Post (CacheStatus ''Cache is empty'')]
                  else [CachesOpen cacheName, CacheKeys] @ map CacheMatch keys @
                    (if list_ex (\<lambda>key. isl (entry_size w key)) keys
                     then failed
                     else [Post (CacheStatusFiles
                                   (map (\<lambda>key. (file_name key, projr (entry_size w key)))
                                      keys))])))"

definition clearCache :: "world \<Rightarrow> effect list" where
  "clearCache w =
     (let failed = [Post (CacheStatus ''Failed to clear cache''),
                    Console ErrorL ''Failed to clear cache:'']
      in case cw_open w of
           Inl e \<Rightarrow> [CachesOpen cacheName] @ failed
         | Inr u \<Rightarrow>
             (case cw_keys w of
                Inl e \<Rightarrow> [CachesOpen cacheName, CacheKeys] @ failed
              | Inr keys \<Rightarrow>
                  [CachesOpen cacheName, CacheKeys] @ map CacheDelete keys @
                  (if list_ex (\<lambda>key. isl (cw_delete w key)) keys
                   then failed
                   else [Post (CacheStatus ''Cache cleared''),
                         Console LogL ''Cache cleared successfully''])))"

section \<open>The message handler\<close>

definition onmessage ::
  "world \<Rightarrow> worker_state \<Rightarrow> jsval
     \<Rightarrow> (worker_state \<times> effect list \<times> unit completion) option" where
  "onmessage w s event_data =
     (if nullish event_data
      then Some (s, [],
                 Raised (JsError ''TypeError''
                           ''Cannot destructure property 'type' of 'event.data' as it is undefined.''))
      else
        (let msg_type = prop_of event_data ''type'';
             data = prop_of event_data ''data'';
             eff = [Console LogL ''Worker received message:'']
         in if msg_type = JStr ''init_wasm''
            then (case initializeWASM w s of
                    (s', eff', success) \<Rightarrow>
                      Some (s', eff @ eff' @ [Post (WasmInitialized success)], Returned ()))
            else if msg_type = JStr ''load_model''
            then (if \<not> wasmInitialized s
                  then Some (s, eff @ [Post (ErrorMsg ''WASM not initialized'')], Returned ())
                  else (case loadModel w s data of
                          None \<Rightarrow> None
                        | Some (s', eff', Returned b) \<Rightarrow> Some (s', eff @ eff', Returned ())
                        | Some (s', eff', Raised e) \<Rightarrow> Some (s', eff @ eff', Raised e)
                        | Some (s', eff', Pending) \<Rightarrow> Some (s', eff @ eff', Pending)))
            else if msg_type = JStr ''stream_tokens''
            then (case generateResponse w s data of
                    (s', eff', c) \<Rightarrow> Some (s', eff @ eff', c))
            else if msg_type = JStr ''check_cache''
            then Some (s, eff @ checkCacheStatus w, Returned ())
            else if msg_type = JStr ''clear_cache''
            then Some (s, eff @ clearCache w, Returned ())
            else Some (s, eff @ [Console WarnL ''Unknown message type in worker:''],
                       Returned ())))"

section \<open>Vocabulary of the properties\<close>

text \<open>
  None of the functions of this section is code of the worker: they read a world or a
  trace, so that a theorem can say what the reader delivered, what was posted and which
  calls were made.
\<close>

text \<open>The first \<open>n\<close> answers of the reader from answer \<open>i\<close> on are all chunks; their bytes.\<close>

definition is_chunk :: "read_result \<Rightarrow> bool" where
  "is_chunk r = (case r of Chunk v \<Rightarrow> True | Done \<Rightarrow> False | ReadFail e \<Rightarrow> False)"

definition chunk_bytes :: "read_result \<Rightarrow> bytes" where
  "chunk_bytes r = (case r of Chunk v \<Rightarrow> v | Done \<Rightarrow> [] | ReadFail e \<Rightarrow> [])"

definition all_chunks :: "(nat \<Rightarrow> read_result) \<Rightarrow> nat \<Rightarrow> nat \<Rightarrow> bool" where
  "all_chunks reads i n = list_all (\<lambda>k. is_chunk (reads k)) [i..<i + n]"

definition received :: "(nat \<Rightarrow> read_result) \<Rightarrow> nat \<Rightarrow> nat \<Rightarrow> bytes list" where
  "received reads i n = map (\<lambda>k. chunk_bytes (reads k)) [i..<i + n]"

text \<open>The progress messages of the loop over a list of chunks, from a byte count on.\<close>

fun progress_trace :: "string \<Rightarrow> int option \<Rightarrow> nat \<Rightarrow> bytes list \<Rightarrow> effect list" where
  "progress_trace d t loaded [] = []"
| "progress_trace d t loaded (v # vs) =
     progress_effects d t (loaded + length v) @ progress_trace d t (loaded + length v) vs"

text \<open>The messages a trace posts to the host, in order.\<close>

fun posts :: "effect list \<Rightarrow> msg list" where
  "posts [] = []"
| "posts (Post m # es) = m # posts es"
| "posts (e # es) = posts es"

text \<open>The progress messages with a percentage: the percentage and the byte count.\<close>

fun percent_events :: "effect list \<Rightarrow> (int \<times> nat) list" where
  "percent_events [] = []"
| "percent_events (Post (LoadingProgressPct d p l) # es) = (p, l) # percent_events es"
| "percent_events (e # es) = percent_events es"



text \<open>Lines 49 to 52: what every download does first.\<close>

definition fetch_prefix :: "string \<Rightarrow> string \<Rightarrow> effect list" where
  "fetch_prefix url d =
     [Console LogL (''Downloading '' @ d @ '':''),
      Post (LoadingProgress (''Downloading '' @ d @ ''...'')),
      Fetch url]"

text \<open>The calls of a trace that change the cache.\<close>

fun cache_writes :: "effect list \<Rightarrow> effect list" where
  "cache_writes [] = []"
| "cache_writes (CachePut url b # es) = CachePut url b # cache_writes es"
| "cache_writes (CacheDelete url # es) = CacheDelete url # cache_writes es"
| "cache_writes (e # es) = cache_writes es"

text \<open>The texts of the token messages among posted messages.\<close>

fun token_texts :: "msg list \<Rightarrow> string list" where
  "token_texts [] = []"
| "token_texts (Token t st # ms) = t # token_texts ms"
| "token_texts (m # ms) = token_texts ms"

text \<open>The calls of a trace that reach the engine.\<close>

fun engine_calls :: "effect list \<Rightarrow> effect list" where
  "engine_calls [] = []"
| "engine_calls (EngineInit # es) = EngineInit # engine_calls es"
| "engine_calls (EngineConstruct a b c q # es) = EngineConstruct a b c q # engine_calls es"
| "engine_calls (EngineWrap m # es) = EngineWrap m # engine_calls es"
| "engine_calls (EngineStream a p # es) = EngineStream a p # engine_calls es"
| "engine_calls (e # es) = engine_calls es"

text \<open>The calls of a trace that reach the Cache API or the network.\<close>

fun platform_calls :: "effect list \<Rightarrow> effect list" where
  "platform_calls [] = []"
| "platform_calls (CachesOpen n # es) = CachesOpen n # platform_calls es"
| "platform_calls (CacheMatch u # es) = CacheMatch u # platform_calls es"
| "platform_calls (CacheDelete u # es) = CacheDelete u # platform_calls es"
| "platform_calls (CachePut u b # es) = CachePut u b # platform_calls es"
| "platform_calls (CacheKeys # es) = CacheKeys # platform_calls es"
| "platform_calls (Fetch u # es) = Fetch u # platform_calls es"
| "platform_calls (e # es) = platform_calls es"

section \<open>Concrete inputs\<close>

definition demo_reads :: "nat \<Rightarrow> read_result" where
  "demo_reads i = (if i = 0 then Chunk [1, 2] else if i = 1 then Chunk [3] else Done)"

definition demo_response :: response where
  "demo_response =
     \<lparr>r_ok = True, r_status = 200, r_statusText = ''OK'', r_content_length = Some ''3'',
      r_has_body = True, r_reads = demo_reads\<rparr>"

definition demo_download :: download_world where
  "demo_download =
     \<lparr>open_res = Inr (), match_res = Inr None, delete_res = Inr True,
      fetch_res = Inr demo_response, put_res = Inr ()\<rparr>"

definition demo_trace :: "effect list" where
  "demo_trace =
     [CachesOpen ''phi-model-cache'', CacheMatch ''https://x/c.json'',
      Console LogL ''Downloading Phi config:'',
      Post (LoadingProgress ''Downloading Phi config...''),
      Fetch ''https://x/c.json'',
      Post (LoadingProgressPct ''Phi config'' 67 2),
      Post (LoadingProgressPct ''Phi config'' 100 3),
      Console LogL ''Downloaded Phi config: 3 bytes'',
      CachePut ''https://x/c.json'' [1, 2, 3],
      Console LogL ''Cached Phi config successfully'']"

definition not_found_response :: response where
  "not_found_response =
     \<lparr>r_ok = False, r_status = 404, r_statusText = ''Not Found'', r_content_length = None,
      r_has_body = True, r_reads = (\<lambda>i. Done)\<rparr>"

definition not_found_download :: download_world where
  "not_found_download =
     \<lparr>open_res = Inr (), match_res = Inr None, delete_res = Inr True,
      fetch_res = Inr not_found_response, put_res = Inr ()\<rparr>"

definition cached_download :: "bytes \<Rightarrow> download_world" where
  "cached_download b =
     \<lparr>open_res = Inr (), match_res = Inr (Some \<lparr>c_ok = True, c_arrayBuffer = Inr b\<rparr>),
      delete_res = Inr True, fetch_res = Inl (JsError ''TypeError'' ''Failed to fetch''),
      put_res = Inr ()\<rparr>"

text \<open>An engine whose stream delivers one token and then rejects, whose constructor
  succeeds and whose agent wrapper fails; every asset is in the cache.\<close>

definition demo_world :: world where
  "demo_world =
     \<lparr>init_res = Inr (),
      dl = (\<lambda>k. cached_download [of_nat k]),
      sched = [],
      construct_res = (\<lambda>weights tokenizer config q. Inr (PhiModel 1)),
      wrap_res = (\<lambda>m. Inl (JsError ''Error'' ''wrapper failed'')),
      start_time = 0,
      stream_res = (\<lambda>agent p. \<lparr>so_tokens = [(''Hi'', 5, 6)],
                                  so_end = Rejected (JsError ''Error'' ''boom'')\<rparr>),
      cw_open = Inr (), cw_keys = Inr [], cw_match = (\<lambda>k. Inr None),
      cw_delete = (\<lambda>k. Inr True)\<rparr>"

definition demo_state :: worker_state where
  "demo_state =
     \<lparr>wasmInitialized = True, currentModel = Some (PhiModel 0),
      currentAgent = Some (PhiAgentWrapper 0)\<rparr>"

definition fresh_state :: worker_state where
  "fresh_state = \<lparr>wasmInitialized = False, currentModel = None, currentAgent = None\<rparr>"

definition text_request :: jsval where
  "text_request = JObj [(''prompt'', JStr ''hello'')]"

definition image_request :: jsval where
  "image_request =
     JObj [(''prompt'', JStr ''what is this?''),
           (''image'', JObj [(''data'', JStr ''data:image/png;base64,AAAA'')])]"

definition demo_config :: jsval where
  "demo_config =
     JObj [(''base_url'', JStr ''https://x/''), (''model'', JStr ''m.bin''),
           (''tokenizer'', JStr ''t.bin''), (''config'', JStr ''c.json''),
           (''quantized'', JBool False)]"

section \<open>Properties of downloadFile\<close>

lemma all_chunks_0: "all_chunks reads i 0"
  by (simp add: all_chunks_def)

lemma received_0: "received reads i 0 = []"
  by (simp add: received_def)

lemma all_chunks_Suc:
  "all_chunks reads i (Suc n) = (is_chunk (reads i) \<and> all_chunks reads (Suc i) n)"
  by (simp add: all_chunks_def upt_conv_Cons del: upt_Suc)

lemma received_Suc:
  "received reads i (Suc n) = chunk_bytes (reads i) # received reads (Suc i) n"
  by (simp add: received_def upt_conv_Cons del: upt_Suc)

lemma read_loop_chunks:
  "all_chunks reads i n \<Longrightarrow>
   read_loop reads d t i chunks loaded eff =
   read_loop reads d t (i + n) (chunks @ received reads i n)
     (loaded + sum_list (map length (received reads i n)))
     (eff @ progress_trace d t loaded (received reads i n))"
proof (induction n arbitrary: i chunks loaded eff)
  case 0
  show ?case by (simp add: received_0)
next
  case (Suc n)
  from Suc.prems obtain v where v: "reads i = Chunk v" and rest: "all_chunks reads (Suc i) n"
    by (auto simp: all_chunks_Suc is_chunk_def split: read_result.splits)
  have "read_loop reads d t i chunks loaded eff =
        read_loop reads d t (Suc i) (chunks @ [v]) (loaded + length v)
          (eff @ progress_effects d t (loaded + length v))"
    by (subst read_loop.simps) (simp add: v)
  also have "\<dots> = read_loop reads d t (Suc i + n) ((chunks @ [v]) @ received reads (Suc i) n)
          (loaded + length v + sum_list (map length (received reads (Suc i) n)))
          ((eff @ progress_effects d t (loaded + length v)) @
             progress_trace d t (loaded + length v) (received reads (Suc i) n))"
    by (rule Suc.IH [OF rest])
  finally show ?case
    by (simp add: received_Suc v chunk_bytes_def add.assoc)
qed

lemma read_loop_stops:
  "read_loop reads d t i chunks loaded eff = Some y \<Longrightarrow>
   \<exists>n. all_chunks reads i n \<and> \<not> is_chunk (reads (i + n))"
proof (induction reads d t i chunks loaded eff y
    rule: read_loop.raw_induct [rotated 1, consumes 1])
  case (1 f reads d t i chunks loaded eff y)
  show ?case
  proof (cases "reads i")
    case (Chunk v)
    with 1(2) have "f reads d t (Suc i) (chunks @ [v]) (loaded + length v)
        (eff @ progress_effects d t (loaded + length v)) = Some y"
      by simp
    from 1(1) [OF this] obtain n where "all_chunks reads (Suc i) n" "\<not> is_chunk (reads (Suc i + n))"
      by blast
    then have "all_chunks reads i (Suc n) \<and> \<not> is_chunk (reads (i + Suc n))"
      by (simp add: all_chunks_Suc Chunk is_chunk_def)
    then show ?thesis by blast
  next
    case Done
    then have "all_chunks reads i 0 \<and> \<not> is_chunk (reads (i + 0))"
      by (simp add: all_chunks_0 is_chunk_def)
    then show ?thesis by blast
  next
    case (ReadFail e)
    then have "all_chunks reads i 0 \<and> \<not> is_chunk (reads (i + 0))"
      by (simp add: all_chunks_0 is_chunk_def)
    then show ?thesis by blast
  qed
qed

lemma read_loop_end:
  "\<not> is_chunk (reads i) \<Longrightarrow>
   read_loop reads d t i chunks loaded eff =
     Some (case reads i of ReadFail e \<Rightarrow> Inl e | Done \<Rightarrow> Inr chunks | Chunk v \<Rightarrow> Inr chunks, eff)"
  by (subst read_loop.simps) (simp add: is_chunk_def split: read_result.splits)

lemma foldl_len: "foldl (\<lambda>acc chunk. acc + length chunk) a chunks = a + sum_list (map length chunks)"
  by (induction chunks arbitrary: a) auto

lemma u8_set_window:
  "length c \<le> length mid \<Longrightarrow>
   u8_set (pre @ mid @ post) c (length pre) = Inr (pre @ c @ drop (length c) mid @ post)"
  by (simp add: u8_set_def)

lemma fill_window:
  "length mid = sum_list (map length chunks) \<Longrightarrow>
   fill chunks (pre @ mid @ post) (length pre) = Inr (pre @ concat chunks @ post)"
proof (induction chunks arbitrary: pre mid)
  case Nil
  then show ?case by simp
next
  case (Cons c cs)
  have len: "length c \<le> length mid" using Cons.prems by simp
  have rest: "length (drop (length c) mid) = sum_list (map length cs)"
    using Cons.prems by simp
  have "fill (c # cs) (pre @ mid @ post) (length pre) =
        fill cs ((pre @ c) @ drop (length c) mid @ post) (length (pre @ c))"
    using u8_set_window [OF len, of pre post] by simp
  also have "\<dots> = Inr ((pre @ c) @ concat cs @ post)"
    by (rule Cons.IH [OF rest])
  finally show ?case by simp
qed

lemma concat_chunks_eq: "concat_chunks chunks = Inr (concat chunks)"
  using fill_window [of "replicate (sum_list (map length chunks)) 0" chunks "[]" "[]"]
  by (simp add: concat_chunks_def foldl_len Let_def)

lemma posts_append: "posts (xs @ ys) = posts xs @ posts ys"
  by (induction xs rule: posts.induct) auto



lemma store_and_return_eq:
  "store_and_return w url d chunks eff =
     Some (Inr (concat chunks),
           eff @ [Console LogL (''Downloaded '' @ d @ '': '' @
                                 show_nat (length (concat chunks)) @ '' bytes''),
                  CachePut url (concat chunks),
                  (case put_res w of
                     Inr u \<Rightarrow> Console LogL (''Cached '' @ d @ '' successfully'')
                   | Inl cacheError \<Rightarrow> Console WarnL (''Failed to cache '' @ d @ '':''))])"
  by (simp add: store_and_return_def concat_chunks_eq Let_def split: sum.splits)

lemma fetch_and_read_run:
  assumes "fetch_res w = Inr r" "r_ok r" "r_has_body r"
    and "all_chunks (r_reads r) 0 n" "\<not> is_chunk (r_reads r n)"
  shows "fetch_and_read w url d eff0 =
     (let eff2 = eff0 @ fetch_prefix url d @
                 progress_trace d (parse_content_length (r_content_length r)) 0
                   (received (r_reads r) 0 n)
      in case r_reads r n of
           ReadFail e \<Rightarrow> download_catch d e eff2
         | Done \<Rightarrow> store_and_return w url d (received (r_reads r) 0 n) eff2
         | Chunk v \<Rightarrow> None)"
proof -
  have "read_loop (r_reads r) d (parse_content_length (r_content_length r)) 0 [] 0
          (eff0 @ fetch_prefix url d) =
        Some (case r_reads r n of ReadFail e \<Rightarrow> Inl e | Done \<Rightarrow> Inr (received (r_reads r) 0 n)
                | Chunk v \<Rightarrow> Inr (received (r_reads r) 0 n),
              (eff0 @ fetch_prefix url d) @
                progress_trace d (parse_content_length (r_content_length r)) 0
                  (received (r_reads r) 0 n))"
    using read_loop_chunks [OF assms(4), of d _ "[]" 0 "eff0 @ fetch_prefix url d"]
      read_loop_end [of "r_reads r" n, OF assms(5)]
    by simp
  then show ?thesis
    using assms(1,2,3,5)
    by (simp add: fetch_and_read_def fetch_prefix_def Let_def is_chunk_def
        split: read_result.splits)
qed

lemma fetch_and_read_stops:
  assumes "fetch_and_read w url d eff0 = Some y" "fetch_res w = Inr r" "r_ok r" "r_has_body r"
  shows "\<exists>n. all_chunks (r_reads r) 0 n \<and> \<not> is_chunk (r_reads r n)"
proof -
  from assms obtain z where
    "read_loop (r_reads r) d (parse_content_length (r_content_length r)) 0 [] 0
       (eff0 @ fetch_prefix url d) = Some z"
    by (auto simp: fetch_and_read_def fetch_prefix_def Let_def split: option.splits)
  from read_loop_stops [OF this] show ?thesis by simp
qed

lemma downloadFile_cases:
  assumes "downloadFile w url d = Some (res, eff)"
  shows "(percent_events eff = [] \<and> Fetch url \<notin> set eff) \<or>
         (\<exists>eff0. percent_events eff0 = [] \<and>
            (\<forall>x. downloadFile (w\<lparr>put_res := x\<rparr>) url d =
                  fetch_and_read (w\<lparr>put_res := x\<rparr>) url d eff0))"
proof (cases "open_res w")
  case (Inl e)
  with assms show ?thesis
    by (auto simp: downloadFile_def download_catch_def)
next
  case open_ok: (Inr u)
  show ?thesis
  proof (cases "match_res w")
    case (Inl e)
    with assms open_ok show ?thesis
      by (auto simp: downloadFile_def download_catch_def)
  next
    case match_ok: (Inr hit)
    show ?thesis
    proof (cases hit)
      case None
      with open_ok match_ok have
        "\<forall>x. downloadFile (w\<lparr>put_res := x\<rparr>) url d =
             fetch_and_read (w\<lparr>put_res := x\<rparr>) url d [CachesOpen cacheName, CacheMatch url]"
        by (simp add: downloadFile_def)
      moreover have "percent_events [CachesOpen cacheName, CacheMatch url] = []" by simp
      ultimately show ?thesis by blast
    next
      case (Some c)
      show ?thesis
      proof (cases "c_ok c")
        case True
        with assms open_ok match_ok Some show ?thesis
          by (auto simp: downloadFile_def download_catch_def Let_def split: sum.splits)
      next
        case False
        show ?thesis
        proof (cases "delete_res w")
          case (Inl e)
          with assms open_ok match_ok Some False show ?thesis
            by (auto simp: downloadFile_def download_catch_def Let_def)
        next
          case (Inr b)
          with open_ok match_ok Some False have
            "\<forall>x. downloadFile (w\<lparr>put_res := x\<rparr>) url d =
               fetch_and_read (w\<lparr>put_res := x\<rparr>) url d
                 ([CachesOpen cacheName, CacheMatch url,
                   Console LogL (''Loading '' @ d @ '' from cache:''),
                   Post (LoadingProgress (''Loading '' @ d @ '' from cache...''))] @
                  [Console WarnL ''Cached response not ok, removing from cache:'',
                   CacheDelete url])"
            by (simp add: downloadFile_def Let_def)
          moreover have "percent_events ([CachesOpen cacheName, CacheMatch url,
                   Console LogL (''Loading '' @ d @ '' from cache:''),
                   Post (LoadingProgress (''Loading '' @ d @ '' from cache...''))] @
                  [Console WarnL ''Cached response not ok, removing from cache:'',
                   CacheDelete url]) = []" by simp
          ultimately show ?thesis by blast
        qed
      qed
    qed
  qed
qed

lemma same_world: "w\<lparr>put_res := put_res w\<rparr> = (w :: download_world)"
  by simp

lemma fetch_and_read_Inr:
  assumes "fetch_and_read w url d eff0 = Some (Inr bs, eff)"
  shows "\<exists>r n. fetch_res w = Inr r \<and> r_ok r \<and> r_has_body r \<and>
           all_chunks (r_reads r) 0 n \<and> r_reads r n = Done \<and>
           bs = concat (received (r_reads r) 0 n) \<and>
           eff = eff0 @ fetch_prefix url d @
                 progress_trace d (parse_content_length (r_content_length r)) 0
                   (received (r_reads r) 0 n) @
                 [Console LogL (''Downloaded '' @ d @ '': '' @
                                 show_nat (length bs) @ '' bytes''),
                  CachePut url bs,
                  (case put_res w of
                     Inr u \<Rightarrow> Console LogL (''Cached '' @ d @ '' successfully'')
                   | Inl cacheError \<Rightarrow> Console WarnL (''Failed to cache '' @ d @ '':''))]"
proof (cases "fetch_res w")
  case (Inl e)
  with assms show ?thesis
    by (simp add: fetch_and_read_def download_catch_def Let_def)
next
  case (Inr r)
  have ok: "r_ok r" and body: "r_has_body r"
    using assms Inr
    by (auto simp: fetch_and_read_def download_catch_def Let_def split: if_splits)
  from fetch_and_read_stops [OF assms Inr ok body] obtain n where
    n: "all_chunks (r_reads r) 0 n" "\<not> is_chunk (r_reads r n)" by blast
  note run = fetch_and_read_run [OF Inr ok body n, of url d eff0]
  show ?thesis
  proof (cases "r_reads r n")
    case (Chunk v)
    with n(2) show ?thesis by (simp add: is_chunk_def)
  next
    case Done
    with run assms have
      "bs = concat (received (r_reads r) 0 n) \<and>
       eff = eff0 @ fetch_prefix url d @
                 progress_trace d (parse_content_length (r_content_length r)) 0
                   (received (r_reads r) 0 n) @
                 [Console LogL (''Downloaded '' @ d @ '': '' @
                                 show_nat (length bs) @ '' bytes''),
                  CachePut url bs,
                  (case put_res w of
                     Inr u \<Rightarrow> Console LogL (''Cached '' @ d @ '' successfully'')
                   | Inl cacheError \<Rightarrow> Console WarnL (''Failed to cache '' @ d @ '':''))]"
      by (auto simp: store_and_return_eq Let_def)
    with Inr ok body n(1) Done show ?thesis by blast
  next
    case (ReadFail e)
    with run assms show ?thesis
      by (simp add: download_catch_def Let_def)
  qed
qed

text \<open>
  The loop ends whenever the body does: if the reader delivers \<open>n\<close> chunks and then
  reports \<^verbatim>\<open>done\<close> or fails, a download that missed the cache returns.
\<close>

lemma downloadFile_returns:
  assumes "open_res w = Inr ()" and "match_res w = Inr None" and "fetch_res w = Inr r"
    and "r_ok r" and "r_has_body r"
    and "all_chunks (r_reads r) 0 n" and "\<not> is_chunk (r_reads r n)"
  shows "\<exists>res eff. downloadFile w url d = Some (res, eff)"
proof -
  have "downloadFile w url d =
          fetch_and_read w url d [CachesOpen cacheName, CacheMatch url]"
    using assms(1,2) by (simp add: downloadFile_def)
  then show ?thesis
    using fetch_and_read_run [OF assms(3-7), of url d "[CachesOpen cacheName, CacheMatch url]"]
      assms(7)
    by (cases "r_reads r n")
      (simp_all add: is_chunk_def store_and_return_eq download_catch_def Let_def)
qed

lemma concat_slice:
  assumes "j < length cs"
  shows "take (length (cs ! j)) (drop (sum_list (map length (take j cs))) (concat cs)) = cs ! j"
proof -
  have "cs = take j cs @ cs ! j # drop (Suc j) cs"
    using assms by (rule id_take_nth_drop)
  then have "concat cs = concat (take j cs) @ cs ! j @ concat (drop (Suc j) cs)"
    by (metis concat.simps(2) concat_append)
  moreover have "length (concat (take j cs)) = sum_list (map length (take j cs))"
    by (simp add: length_concat)
  ultimately show ?thesis by simp
qed

lemma length_received: "length (received reads i n) = n"
  by (simp add: received_def)

text \<open>
  Claim C4. When \<open>downloadFile\<close> returns bytes that came from the network (the trace
  holds the \<^verbatim>\<open>fetch\<close> of the URL), the reader delivered some \<open>n\<close> chunks and then
  reported \<^verbatim>\<open>done\<close>, and the returned buffer is the concatenation of those chunks in
  arrival order: its length is the sum of the chunk lengths, and chunk \<open>j\<close> stands at the
  offset that is the sum of the lengths of the chunks before it.
\<close>

theorem downloadFile_concatenates_chunks:
  assumes "downloadFile w url d = Some (Inr bs, eff)" and "Fetch url \<in> set eff"
  shows "\<exists>r n. fetch_res w = Inr r \<and> all_chunks (r_reads r) 0 n \<and> r_reads r n = Done \<and>
           bs = concat (received (r_reads r) 0 n) \<and>
           length bs = sum_list (map length (received (r_reads r) 0 n)) \<and>
           (\<forall>j < n. take (length (received (r_reads r) 0 n ! j))
                       (drop (sum_list (map length (take j (received (r_reads r) 0 n)))) bs)
                     = received (r_reads r) 0 n ! j)"
proof -
  from downloadFile_cases [OF assms(1)] assms(2) obtain eff0 where
    "\<forall>x. downloadFile (w\<lparr>put_res := x\<rparr>) url d = fetch_and_read (w\<lparr>put_res := x\<rparr>) url d eff0"
    by blast
  then have "downloadFile (w\<lparr>put_res := put_res w\<rparr>) url d =
             fetch_and_read (w\<lparr>put_res := put_res w\<rparr>) url d eff0"
    by blast
  with assms(1) have "fetch_and_read w url d eff0 = Some (Inr bs, eff)"
    by (simp only: same_world)
  from fetch_and_read_Inr [OF this] obtain r n where
    rn: "fetch_res w = Inr r" "all_chunks (r_reads r) 0 n" "r_reads r n = Done"
      "bs = concat (received (r_reads r) 0 n)"
    by blast
  have len: "length bs = sum_list (map length (received (r_reads r) 0 n))"
    by (simp add: rn(4) length_concat)
  have "\<forall>j < n. take (length (received (r_reads r) 0 n ! j))
                       (drop (sum_list (map length (take j (received (r_reads r) 0 n)))) bs)
                     = received (r_reads r) 0 n ! j"
    using concat_slice [of _ "received (r_reads r) 0 n"]
    by (simp add: rn(4) length_received)
  with rn len show ?thesis by blast
qed


lemma js_round_div:
  assumes "0 < t"
  shows "js_round ((of_nat a / of_int t) * 100) = (200 * int a + t) div (2 * t)"
proof -
  have "(of_nat a / of_int t) * 100 + 1 / 2 = (of_int (200 * int a + t) :: rat) / of_int (2 * t)"
    using assms by (simp add: field_simps)
  then show ?thesis
    unfolding js_round_def by (simp only: floor_divide_of_int_eq)
qed

lemma demo_run:
  "downloadFile demo_download ''https://x/c.json'' ''Phi config'' = Some (Inr [1, 2, 3], demo_trace)"
  using js_round_div [of 3 2] js_round_div [of 3 3]
  by (simp add: downloadFile_def demo_download_def fetch_and_read_def demo_response_def
      read_loop.simps demo_reads_def parse_content_length_def parseInt10_def js_ws_def is_digit_def
      decimal_def digit_of_def progress_effects_def store_and_return_def
      concat_chunks_def u8_set_def show_nat.simps digit_char_def demo_trace_def cacheName_def Let_def)

lemma demo_fetched: "Fetch ''https://x/c.json'' \<in> set demo_trace"
  by (simp add: demo_trace_def)

theorem downloadFile_concatenates_chunks_witness:
  "downloadFile demo_download ''https://x/c.json'' ''Phi config'' = Some (Inr [1, 2, 3], demo_trace) \<and>
   Fetch ''https://x/c.json'' \<in> set demo_trace \<and>
   (\<exists>r n. fetch_res demo_download = Inr r \<and> all_chunks (r_reads r) 0 n \<and> r_reads r n = Done \<and>
      [1, 2, 3] = concat (received (r_reads r) 0 n) \<and>
      length [1, 2, 3 :: 8 word] = sum_list (map length (received (r_reads r) 0 n)) \<and>
      (\<forall>j < n. take (length (received (r_reads r) 0 n ! j))
                  (drop (sum_list (map length (take j (received (r_reads r) 0 n)))) [1, 2, 3])
                = received (r_reads r) 0 n ! j))"
  using downloadFile_concatenates_chunks [OF demo_run demo_fetched] demo_run demo_fetched
  by blast

text \<open>
  Claim C5. On a cache miss, when the network answers with a status that is not a
  success, \<open>downloadFile\<close> rejects with the Error whose message holds the status code,
  the status text and the URL; it returns no bytes and its trace, given in full, holds
  no call that writes to the cache.
\<close>

theorem downloadFile_http_error:
  assumes "open_res w = Inr ()" and "match_res w = Inr None"
    and "fetch_res w = Inr r" and "\<not> r_ok r"
  shows "downloadFile w url d =
           Some (Inl (JsError ''Error''
                        (''HTTP '' @ show_nat (r_status r) @ '': '' @ r_statusText r @
                         '' for '' @ url)),
                 [CachesOpen cacheName, CacheMatch url,
                  Console LogL (''Downloading '' @ d @ '':''),
                  Post (LoadingProgress (''Downloading '' @ d @ ''...'')),
                  Fetch url,
                  Console ErrorL (''Failed to download '' @ d @ '':'')])
         \<and> (\<forall>eff. downloadFile w url d \<noteq> Some (Inr bs, eff))
         \<and> (\<forall>res eff. downloadFile w url d = Some (res, eff) \<longrightarrow> cache_writes eff = [])"
  using assms
  by (simp add: downloadFile_def fetch_and_read_def download_catch_def http_error_def Let_def)

theorem downloadFile_http_error_witness:
  "open_res not_found_download = Inr () \<and> match_res not_found_download = Inr None \<and>
   fetch_res not_found_download = Inr not_found_response \<and> \<not> r_ok not_found_response \<and>
   downloadFile not_found_download ''https://x/m.bin'' ''Phi model weights'' =
     Some (Inl (JsError ''Error'' ''HTTP 404: Not Found for https://x/m.bin''),
           [CachesOpen ''phi-model-cache'', CacheMatch ''https://x/m.bin'',
            Console LogL ''Downloading Phi model weights:'',
            Post (LoadingProgress ''Downloading Phi model weights...''),
            Fetch ''https://x/m.bin'',
            Console ErrorL ''Failed to download Phi model weights:''])"
proof -
  have h: "open_res not_found_download = Inr ()" "match_res not_found_download = Inr None"
    "fetch_res not_found_download = Inr not_found_response" "\<not> r_ok not_found_response"
    by (simp_all add: not_found_download_def not_found_response_def)
  have "show_nat 404 = ''404''"
    by (simp add: show_nat.simps digit_char_def)
  with downloadFile_http_error [OF h, of "''https://x/m.bin''" "''Phi model weights''" "[]"] h
  show ?thesis
    by (simp add: not_found_response_def cacheName_def)
qed

text \<open>
  Claim C6. When \<open>downloadFile\<close> returns bytes that came from the network, the same
  call in the world where \<^verbatim>\<open>cache.put\<close> rejects returns the same bytes, which are
  the concatenation of the chunks read: the rejection is only logged with
  \<^verbatim>\<open>console.warn\<close> as the last step, the write was attempted, and the messages
  posted to the host are the same, so the return value does not tell the two apart.
\<close>

theorem cache_write_failure_absorbed:
  assumes "downloadFile w url d = Some (Inr bs, eff)" and "Fetch url \<in> set eff"
  shows "\<exists>eff' r n.
           downloadFile (w\<lparr>put_res := Inl cacheError\<rparr>) url d = Some (Inr bs, eff') \<and>
           last eff' = Console WarnL (''Failed to cache '' @ d @ '':'') \<and>
           CachePut url bs \<in> set eff' \<and>
           posts eff' = posts eff \<and>
           fetch_res w = Inr r \<and> all_chunks (r_reads r) 0 n \<and> r_reads r n = Done \<and>
           bs = concat (received (r_reads r) 0 n)"
proof -
  let ?w' = "w\<lparr>put_res := Inl cacheError\<rparr>"
  from downloadFile_cases [OF assms(1)] assms(2) obtain eff0 where
    eff0: "\<forall>x. downloadFile (w\<lparr>put_res := x\<rparr>) url d = fetch_and_read (w\<lparr>put_res := x\<rparr>) url d eff0"
    by blast
  from eff0 have "downloadFile (w\<lparr>put_res := put_res w\<rparr>) url d =
             fetch_and_read (w\<lparr>put_res := put_res w\<rparr>) url d eff0"
    by blast
  with assms(1) have "fetch_and_read w url d eff0 = Some (Inr bs, eff)"
    by (simp only: same_world)
  from fetch_and_read_Inr [OF this] obtain r n where
    rn: "fetch_res w = Inr r" "r_ok r" "r_has_body r" "all_chunks (r_reads r) 0 n"
      "r_reads r n = Done" "bs = concat (received (r_reads r) 0 n)"
    and eff: "eff = eff0 @ fetch_prefix url d @
                 progress_trace d (parse_content_length (r_content_length r)) 0
                   (received (r_reads r) 0 n) @
                 [Console LogL (''Downloaded '' @ d @ '': '' @
                                 show_nat (length bs) @ '' bytes''),
                  CachePut url bs,
                  (case put_res w of
                     Inr u \<Rightarrow> Console LogL (''Cached '' @ d @ '' successfully'')
                   | Inl cacheError \<Rightarrow> Console WarnL (''Failed to cache '' @ d @ '':''))]"
    by blast
  define eff' where "eff' = eff0 @ fetch_prefix url d @
                 progress_trace d (parse_content_length (r_content_length r)) 0
                   (received (r_reads r) 0 n) @
                 [Console LogL (''Downloaded '' @ d @ '': '' @
                                 show_nat (length bs) @ '' bytes''),
                  CachePut url bs,
                  Console WarnL (''Failed to cache '' @ d @ '':'')]"
  have fr: "fetch_res ?w' = Inr r" using rn(1) by simp
  have nc: "\<not> is_chunk (r_reads r n)" using rn(5) by (simp add: is_chunk_def)
  have "fetch_and_read ?w' url d eff0 = Some (Inr bs, eff')"
    using fetch_and_read_run [OF fr rn(2) rn(3) rn(4) nc, of url d eff0]
    by (simp add: rn(5) rn(6) store_and_return_eq eff'_def Let_def)
  with eff0 have run: "downloadFile ?w' url d = Some (Inr bs, eff')"
    by simp
  have "posts eff' = posts eff"
    unfolding eff eff'_def by (cases "put_res w") (simp_all add: posts_append)
  moreover have "last eff' = Console WarnL (''Failed to cache '' @ d @ '':'')"
    by (simp add: eff'_def)
  moreover have "CachePut url bs \<in> set eff'"
    by (simp add: eff'_def)
  ultimately show ?thesis using run rn by blast
qed

theorem cache_write_failure_absorbed_witness:
  "downloadFile demo_download ''https://x/c.json'' ''Phi config'' = Some (Inr [1, 2, 3], demo_trace) \<and>
   Fetch ''https://x/c.json'' \<in> set demo_trace \<and>
   (\<exists>eff' r n.
      downloadFile (demo_download\<lparr>put_res := Inl (JsError ''QuotaExceededError'' ''full'')\<rparr>)
        ''https://x/c.json'' ''Phi config'' = Some (Inr [1, 2, 3], eff') \<and>
      last eff' = Console WarnL (''Failed to cache '' @ ''Phi config'' @ '':'') \<and>
      CachePut ''https://x/c.json'' [1, 2, 3] \<in> set eff' \<and>
      posts eff' = posts demo_trace \<and>
      fetch_res demo_download = Inr r \<and> all_chunks (r_reads r) 0 n \<and> r_reads r n = Done \<and>
      [1, 2, 3] = concat (received (r_reads r) 0 n))"
  using cache_write_failure_absorbed [OF demo_run demo_fetched] demo_run demo_fetched
  by blast
















section \<open>Properties of generateResponse\<close>

lemma engine_calls_append: "engine_calls (xs @ ys) = engine_calls xs @ engine_calls ys"
  by (induction xs rule: engine_calls.induct) auto

lemma token_effects_posts:
  "count_list (posts (token_effects st n toks)) StreamComplete = 0"
  "ErrorMsg txt \<notin> set (posts (token_effects st n toks))"
  "engine_calls (token_effects st n toks) = []"
  "token_texts (posts (token_effects st n toks)) = map fst toks"
  "SetTimeout k \<notin> set (token_effects st n toks)"
  by (induction st n toks rule: token_effects.induct) auto

lemma prop_of_not_nullish: "prop_of v k \<noteq> JUndefined \<Longrightarrow> \<not> nullish v"
  by (cases v) (auto simp: nullish_def)

text \<open>
  Claim C1. With an agent loaded, a payload whose prompt is a string and whose image
  part does not trigger the fallback, and a call of \<^verbatim>\<open>get_response_stream\<close> that
  settles (it resolves, rejects or throws), \<open>generateResponse\<close> returns normally with the
  state unchanged; among the messages it posts \<^verbatim>\<open>stream_complete\<close> occurs exactly
  once and is the last one; no \<^verbatim>\<open>error\<close> message is posted; the engine was called
  once, with the prompt.
\<close>

theorem stream_complete_exactly_once:
  assumes "currentAgent s = Some agent" and "prop_of data ''prompt'' = JStr p"
    and "\<not> image_supplied (prop_of data ''image'')"
    and "so_end (stream_res w agent p) \<noteq> NeverSettles"
  shows "\<exists>eff. generateResponse w s data = (s, eff, Returned ()) \<and>
           count_list (posts eff) StreamComplete = 1 \<and>
           last (posts eff) = StreamComplete \<and>
           (\<forall>txt. ErrorMsg txt \<notin> set (posts eff)) \<and>
           engine_calls eff = [EngineStream agent p]"
proof -
  have nn: "\<not> nullish data"
    using assms(2) by (intro prop_of_not_nullish [of data "''prompt''"]) simp
  show ?thesis
    using assms nn
    by (cases "so_end (stream_res w agent p)")
      (simp_all add: generateResponse_def stream_text_def stream_catch_def stream_done_def Let_def
        posts_append engine_calls_append token_effects_posts)
qed


theorem stream_complete_exactly_once_witness:
  "currentAgent demo_state = Some (PhiAgentWrapper 0) \<and>
   prop_of text_request ''prompt'' = JStr ''hello'' \<and>
   \<not> image_supplied (prop_of text_request ''image'') \<and>
   so_end (stream_res demo_world (PhiAgentWrapper 0) ''hello'') = Rejected (JsError ''Error'' ''boom'') \<and>
   (\<exists>eff. generateResponse demo_world demo_state text_request = (demo_state, eff, Returned ()) \<and>
      count_list (posts eff) StreamComplete = 1 \<and>
      last (posts eff) = StreamComplete \<and>
      (\<forall>txt. ErrorMsg txt \<notin> set (posts eff)) \<and>
      engine_calls eff = [EngineStream (PhiAgentWrapper 0) ''hello''])"
proof -
  have h: "currentAgent demo_state = Some (PhiAgentWrapper 0)"
    "prop_of text_request ''prompt'' = JStr ''hello''"
    "\<not> image_supplied (prop_of text_request ''image'')"
    by (simp_all add: demo_state_def text_request_def image_supplied_def)
  have e: "so_end (stream_res demo_world (PhiAgentWrapper 0) ''hello'') =
             Rejected (JsError ''Error'' ''boom'')"
    by (simp add: demo_world_def)
  then have "so_end (stream_res demo_world (PhiAgentWrapper 0) ''hello'') \<noteq> NeverSettles"
    by simp
  from stream_complete_exactly_once [OF h this] h e show ?thesis by simp
qed

lemma posts_fallback:
  "posts (concat (map (\<lambda>word. [Post (Token (word @ '' '') None), SetTimeout 50]) ws)) =
     map (\<lambda>word. Token (word @ '' '') None) ws"
  by (induction ws) auto

lemma engine_calls_fallback:
  "engine_calls (concat (map (\<lambda>word. [Post (Token (word @ '' '') None), SetTimeout 50]) ws)) = []"
  by (induction ws) auto

lemma image_supplied_not_nullish: "image_supplied (prop_of v k) \<Longrightarrow> \<not> nullish v"
  by (rule prop_of_not_nullish [of v k]) (auto simp: image_supplied_def)

text \<open>
  Claim C2, as amended. With an agent loaded and an image supplied (and a prompt that a
  template literal can render), the messages posted are one token message for each word
  of the apology sentence split on spaces, in order, each carrying the word followed by
  one space, and then one \<^verbatim>\<open>stream_complete\<close>; no call reaches the engine.
\<close>

theorem image_fallback_tokens:
  assumes "currentAgent s = Some agent"
    and "tpl (prop_of data ''prompt'') = Inr shown"
    and "image_supplied (prop_of data ''image'')"
  shows "\<exists>eff. generateResponse w s data = (s, eff, Returned ()) \<and>
           posts eff =
             map (\<lambda>word. Token (word @ '' '') None) (split_on CHR '' '' apology) @
             [StreamComplete] \<and>
           engine_calls eff = []"
  using assms image_supplied_not_nullish [OF assms(3)]
  by (simp add: generateResponse_def fallback_effects_def Let_def posts_append posts_fallback
      engine_calls_append engine_calls_fallback)

lemma apology_words:
  "split_on CHR '' '' apology =
     [''I'm'', ''a'', ''text'', ''generation'', ''model'', ''and'', ''can't'', ''analyze'',
      ''images.'', ''Please'', ''ask'', ''me'', ''text-based'', ''questions!'']"
  by (simp add: apology_def)

theorem image_fallback_tokens_witness:
  "currentAgent demo_state = Some (PhiAgentWrapper 0) \<and>
   tpl (prop_of image_request ''prompt'') = Inr ''what is this?'' \<and>
   image_supplied (prop_of image_request ''image'') \<and>
   (\<exists>eff. generateResponse demo_world demo_state image_request = (demo_state, eff, Returned ()) \<and>
      posts eff =
        [Token ''I'm '' None, Token ''a '' None, Token ''text '' None,
         Token ''generation '' None, Token ''model '' None, Token ''and '' None,
         Token ''can't '' None, Token ''analyze '' None, Token ''images. '' None,
         Token ''Please '' None, Token ''ask '' None, Token ''me '' None,
         Token ''text-based '' None, Token ''questions! '' None, StreamComplete] \<and>
      engine_calls eff = [])"
proof -
  have h: "currentAgent demo_state = Some (PhiAgentWrapper 0)"
    "tpl (prop_of image_request ''prompt'') = Inr ''what is this?''"
    "image_supplied (prop_of image_request ''image'')"
    by (simp_all add: demo_state_def image_request_def image_supplied_def)
  from image_fallback_tokens [OF h, of demo_world] h show ?thesis
    by (simp add: apology_words)
qed

text \<open>
  The claim as stated fails: the token texts are not the words of the sentence, since
  line 189 sends \<^verbatim>\<open>word + ' '\<close>.
\<close>

theorem image_fallback_tokens_counterexample:
  "token_texts (posts (fst (snd (generateResponse demo_world demo_state image_request)))) \<noteq>
     split_on CHR '' '' apology"
  by (simp add: generateResponse_def demo_state_def image_request_def image_supplied_def
      nullish_def fallback_effects_def apology_words Let_def)

text \<open>
  Claim C10. The test \<^verbatim>\<open>image && image.data\<close> holds exactly when the payload's image is an
  object with a truthy \<^verbatim>\<open>data\<close> property. With an agent loaded and a string prompt, a
  payload that passes the test never reaches the engine and its tokens are those of the
  apology; any other payload (image absent, null, or without truthy data) is sent to
  \<^verbatim>\<open>get_response_stream\<close> with its prompt, and its tokens are the engine's.
\<close>

theorem image_fallback_condition:
  assumes "currentAgent s = Some agent" and "prop_of data ''prompt'' = JStr p"
    and "generateResponse w s data = (s', eff, c)"
  shows "(image_supplied (prop_of data ''image'') \<longleftrightarrow>
            (\<exists>ps v. prop_of data ''image'' = JObj ps \<and> map_of ps ''data'' = Some v \<and> truthy v)) \<and>
         (if image_supplied (prop_of data ''image'')
          then engine_calls eff = [] \<and>
               token_texts (posts eff) = map (\<lambda>word. word @ '' '') (split_on CHR '' '' apology)
          else engine_calls eff = [EngineStream agent p] \<and>
               token_texts (posts eff) = map fst (so_tokens (stream_res w agent p)) \<and>
               SetTimeout 50 \<notin> set eff)"
proof -
  have nn: "\<not> nullish data"
    using assms(2) by (intro prop_of_not_nullish [of data "''prompt''"]) simp
  have iff: "image_supplied img \<longleftrightarrow>
            (\<exists>ps v. img = JObj ps \<and> map_of ps ''data'' = Some v \<and> truthy v)" for img
    by (cases img) (auto simp: image_supplied_def split: option.splits)
  have texts: "token_texts (map (\<lambda>word. Token (word @ '' '') None) ws) = map (\<lambda>word. word @ '' '') ws"
    for ws by (induction ws) auto
  have token_texts_append: "token_texts (xs @ ys) = token_texts xs @ token_texts ys" for xs ys
    by (induction xs rule: token_texts.induct) auto
  have rest: "if image_supplied (prop_of data ''image'')
          then engine_calls eff = [] \<and>
               token_texts (posts eff) = map (\<lambda>word. word @ '' '') (split_on CHR '' '' apology)
          else engine_calls eff = [EngineStream agent p] \<and>
               token_texts (posts eff) = map fst (so_tokens (stream_res w agent p)) \<and>
               SetTimeout 50 \<notin> set eff"
  proof (cases "image_supplied (prop_of data ''image'')")
    case True
    with assms nn show ?thesis
      by (auto simp: generateResponse_def fallback_effects_def Let_def posts_append posts_fallback
          engine_calls_append engine_calls_fallback texts token_texts_append)
  next
    case False
    with assms nn show ?thesis
      by (cases "so_end (stream_res w agent p)")
        (auto simp: generateResponse_def stream_text_def stream_catch_def stream_done_def Let_def
          posts_append engine_calls_append token_effects_posts token_texts_append)
  qed
  with iff show ?thesis by blast
qed

theorem image_fallback_condition_witness:
  "currentAgent demo_state = Some (PhiAgentWrapper 0) \<and>
   prop_of text_request ''prompt'' = JStr ''hello'' \<and>
   \<not> image_supplied (prop_of text_request ''image'') \<and>
   engine_calls (fst (snd (generateResponse demo_world demo_state text_request))) =
     [EngineStream (PhiAgentWrapper 0) ''hello''] \<and>
   token_texts (posts (fst (snd (generateResponse demo_world demo_state text_request)))) = [''Hi''] \<and>
   prop_of image_request ''prompt'' = JStr ''what is this?'' \<and>
   image_supplied (prop_of image_request ''image'') \<and>
   engine_calls (fst (snd (generateResponse demo_world demo_state image_request))) = []"
proof -
  have a: "currentAgent demo_state = Some (PhiAgentWrapper 0)"
    by (simp add: demo_state_def)
  have t: "prop_of text_request ''prompt'' = JStr ''hello''"
    "\<not> image_supplied (prop_of text_request ''image'')"
    by (simp_all add: text_request_def image_supplied_def)
  have i: "prop_of image_request ''prompt'' = JStr ''what is this?''"
    "image_supplied (prop_of image_request ''image'')"
    by (simp_all add: image_request_def image_supplied_def)
  have toks: "map fst (so_tokens (stream_res demo_world (PhiAgentWrapper 0) ''hello'')) = [''Hi'']"
    by (simp add: demo_world_def)
  obtain s1 eff1 c1 where r1: "generateResponse demo_world demo_state text_request = (s1, eff1, c1)"
    by (cases "generateResponse demo_world demo_state text_request") auto
  obtain s2 eff2 c2 where r2: "generateResponse demo_world demo_state image_request = (s2, eff2, c2)"
    by (cases "generateResponse demo_world demo_state image_request") auto
  from image_fallback_condition [OF a t(1) r1] image_fallback_condition [OF a i(1) r2]
  show ?thesis
    using a t i toks r1 r2 by simp
qed

section \<open>Properties of the message handler\<close>

text \<open>
  Claim C3. A \<^verbatim>\<open>load_model\<close> message that arrives while \<open>wasmInitialized\<close> is false is
  answered with the single message \<^verbatim>\<open>error\<close> "WASM not initialized"; the handler
  returns with the state unchanged, and its trace, given in full, holds no step of
  \<open>loadModel\<close>, no call to the Cache API or the network and no call to the engine.
\<close>

theorem load_model_requires_wasm:
  assumes "\<not> wasmInitialized s" and "prop_of event_data ''type'' = JStr ''load_model''"
  shows "onmessage w s event_data =
           Some (s, [Console LogL ''Worker received message:'',
                     Post (ErrorMsg ''WASM not initialized'')], Returned ()) \<and>
         (\<forall>s' eff c. onmessage w s event_data = Some (s', eff, c) \<longrightarrow>
            s' = s \<and> posts eff = [ErrorMsg ''WASM not initialized''] \<and>
            platform_calls eff = [] \<and> engine_calls eff = [] \<and>
            Console LogL ''Loading Phi model in worker:'' \<notin> set eff)"
proof -
  have "\<not> nullish event_data"
    using assms(2) by (intro prop_of_not_nullish [of event_data "''type''"]) simp
  with assms show ?thesis
    by (simp add: onmessage_def Let_def)
qed

theorem load_model_requires_wasm_witness:
  "\<not> wasmInitialized fresh_state \<and>
   onmessage demo_world fresh_state (JObj [(''type'', JStr ''load_model''), (''data'', demo_config)]) =
     Some (fresh_state, [Console LogL ''Worker received message:'',
                         Post (ErrorMsg ''WASM not initialized'')], Returned ())"
proof -
  have h: "\<not> wasmInitialized fresh_state"
    "prop_of (JObj [(''type'', JStr ''load_model''), (''data'', demo_config)]) ''type'' =
       JStr ''load_model''"
    by (simp_all add: fresh_state_def)
  from load_model_requires_wasm [OF h, of demo_world] h(1) show ?thesis by simp
qed

text \<open>
  Claim C9. A message whose \<^verbatim>\<open>type\<close> is none of the five known tags posts nothing to
  the host and leaves the state unchanged: the handler logs the arrival, warns about
  the unknown type and returns. (Message data that is null or undefined has no tag; the
  destructuring at line 278 then throws before anything is logged or posted.)
\<close>

theorem unknown_type_ignored:
  assumes "prop_of event_data ''type'' \<notin>
             {JStr ''init_wasm'', JStr ''load_model'', JStr ''stream_tokens'',
              JStr ''check_cache'', JStr ''clear_cache''}"
  shows "\<exists>eff c. onmessage w s event_data = Some (s, eff, c) \<and> posts eff = [] \<and>
           (if nullish event_data then eff = [] \<and> (\<exists>e. c = Raised e)
            else eff = [Console LogL ''Worker received message:'',
                        Console WarnL ''Unknown message type in worker:''] \<and>
                 c = Returned ())"
  using assms by (simp add: onmessage_def Let_def)

theorem unknown_type_ignored_witness:
  "prop_of (JObj [(''type'', JStr ''bogus'')]) ''type'' = JStr ''bogus'' \<and>
   onmessage demo_world demo_state (JObj [(''type'', JStr ''bogus'')]) =
     Some (demo_state, [Console LogL ''Worker received message:'',
                        Console WarnL ''Unknown message type in worker:''], Returned ())"
proof -
  have h: "prop_of (JObj [(''type'', JStr ''bogus'')]) ''type'' \<notin>
             {JStr ''init_wasm'', JStr ''load_model'', JStr ''stream_tokens'',
              JStr ''check_cache'', JStr ''clear_cache''}"
    by simp
  from unknown_type_ignored [OF h, of demo_world demo_state] show ?thesis
    by (auto simp: nullish_def)
qed

section \<open>Properties of loadModel\<close>








end
